theory Spec2Isabelle
  imports Main
begin

section \<open>Values read from a parsed event\<close>

text \<open>
  The chat page reads three properties of a parsed event: \<^verbatim>\<open>type\<close>, \<^verbatim>\<open>agent\<close> and
  \<^verbatim>\<open>content\<close>. A property is absent (\<^verbatim>\<open>undefined\<close>), \<^verbatim>\<open>null\<close>, a boolean or a string.
  Numbers and nested objects or arrays as values of these three properties are outside
  the model (they would need number printing and object identity).
\<close>

datatype jsval = JUndefined | JNull | JBool bool | JStr string

text \<open>Truthiness, as tested by \<^verbatim>\<open>if (data.agent)\<close>.\<close>

fun truthy :: "jsval \<Rightarrow> bool" where
  "truthy JUndefined = False"
| "truthy JNull = False"
| "truthy (JBool b) = b"
| "truthy (JStr s) = (s \<noteq> [])"

text \<open>The string a value contributes to \<^verbatim>\<open>lastMsg.content += data.content\<close>.\<close>

fun to_string :: "jsval \<Rightarrow> string" where
  "to_string JUndefined = ''undefined''"
| "to_string JNull = ''null''"
| "to_string (JBool b) = (if b then ''true'' else ''false'')"
| "to_string (JStr s) = s"

text \<open>
  A parsed event: the three properties the loop reads, and the remaining properties
  (message, tool, args, ...) kept as uninterpreted text.
\<close>

record event =
  ev_type :: jsval
  ev_agent :: jsval
  ev_content :: jsval
  ev_rest :: string

text \<open>
  \<^verbatim>\<open>JSON.parse\<close> is a built-in of the host; the model takes it as a parameter. Inside the
  \<^verbatim>\<open>try\<close> block it either throws, or returns \<^verbatim>\<open>null\<close> (then \<^verbatim>\<open>data.type\<close> throws), or returns
  a value whose properties can be read.
\<close>

datatype parsed = Threw | NullValue | Data event

section \<open>Conversation and session state of the chat page\<close>

datatype role = User | Assistant

text \<open>
  \<^verbatim>\<open>agentsUsed\<close> is a JavaScript \<^verbatim>\<open>Set\<close>: its members in insertion order.
  The user message is created without \<^verbatim>\<open>events\<close> and \<^verbatim>\<open>agentsUsed\<close>; the model gives it
  empty ones (the loop only ever updates the last message, which is the assistant's).
\<close>

record message =
  role :: role
  content :: string
  events :: "event list"
  agentsUsed :: "jsval list"

record chat_state =
  query :: string
  messages :: "message list"
  loading :: bool
  activeAgent :: jsval
  agentHistory :: "jsval list"

text \<open>\<^verbatim>\<open>Set.prototype.add\<close>: a member already present stays where it is.\<close>

definition set_add :: "jsval \<Rightarrow> jsval list \<Rightarrow> jsval list" where
  "set_add x s = (if x \<in> set s then s else s @ [x])"

text \<open>
  The updaters copy the array and change its last element,
  \<^verbatim>\<open>updated[updated.length - 1]\<close>. On an empty array the JavaScript would throw inside
  the updater; \<open>handleSubmit\<close> appends two messages before the loop starts, so the
  array is never empty there (lemma \<open>stream_messages_nonempty\<close> below).
\<close>

definition update_last :: "(message \<Rightarrow> message) \<Rightarrow> message list \<Rightarrow> message list" where
  "update_last f ms = (if ms = [] then [] else butlast ms @ [f (last ms)])"

section \<open>The stream loop of \<open>Chat.handleSubmit\<close>\<close>

text \<open>
  Lines 194 to 222: the three state updates made for one parsed event. The updaters
  passed to \<^verbatim>\<open>setAgentHistory\<close> and \<^verbatim>\<open>setMessages\<close> are queued by React and run in the
  order of the calls, each once, on the state the previous one returned; the model
  applies them in that order.
\<close>

definition apply_event :: "event \<Rightarrow> chat_state \<Rightarrow> chat_state" where
  "apply_event d st =
    (let st1 = (if ev_type d = JStr ''agent_start'' \<or> ev_type d = JStr ''agent_active''
                then st\<lparr>activeAgent := ev_agent d,
                        agentHistory := (if ev_agent d \<notin> set (agentHistory st)
                                         then agentHistory st @ [ev_agent d]
                                         else agentHistory st)\<rparr>
                else st);
         st2 = (if ev_type d = JStr ''agent_text''
                then st1\<lparr>messages := update_last
                       (\<lambda>lastMsg. lastMsg\<lparr>content := content lastMsg @ to_string (ev_content d),
                                          agentsUsed := set_add (ev_agent d) (agentsUsed lastMsg)\<rparr>)
                       (messages st1)\<rparr>
                else st1)
     in st2\<lparr>messages := update_last
              (\<lambda>lastMsg. lastMsg\<lparr>events := events lastMsg @ [d],
                                 agentsUsed := (if truthy (ev_agent d)
                                                then set_add (ev_agent d) (agentsUsed lastMsg)
                                                else agentsUsed lastMsg)\<rparr>)
              (messages st2)\<rparr>)"

text \<open>Lines 190 to 227: one line of a chunk. A throw inside \<^verbatim>\<open>try\<close> is logged and dropped.\<close>

definition process_line :: "(string \<Rightarrow> parsed) \<Rightarrow> string \<Rightarrow> chat_state \<Rightarrow> chat_state" where
  "process_line parse line st =
    (if take 6 line = ''data: ''
     then (case parse (drop 6 line) of
             Data d \<Rightarrow> apply_event d st
           | NullValue \<Rightarrow> st
           | Threw \<Rightarrow> st)
     else st)"

text \<open>\<^verbatim>\<open>chunk.split('\n')\<close>: the pieces between newlines; always at least one piece.\<close>

fun split_nl :: "string \<Rightarrow> string list" where
  "split_nl [] = [[]]"
| "split_nl (c # cs) =
    (if c = CHR 0x0A then [] # split_nl cs
     else (case split_nl cs of
             [] \<Rightarrow> [[c]]
           | l # ls \<Rightarrow> (c # l) # ls))"

text \<open>
  Lines 186 to 228: each chunk is decoded and split on its own; nothing is carried over.
  A chunk is modelled by its decoded text (\<^verbatim>\<open>decoder.decode(value)\<close>), a string of
  one-byte characters.
\<close>

definition process_chunk :: "(string \<Rightarrow> parsed) \<Rightarrow> string \<Rightarrow> chat_state \<Rightarrow> chat_state" where
  "process_chunk parse chunk st = fold (process_line parse) (split_nl chunk) st"

text \<open>
  How the transport ends: \<^verbatim>\<open>reader.read()\<close> reports \<^verbatim>\<open>done\<close>, or \<^verbatim>\<open>fetch\<close> or
  \<^verbatim>\<open>reader.read()\<close> throws an error carrying a message.
\<close>

datatype stream_end = Done | Failed string

text \<open>\<^verbatim>\<open>query.trim()\<close>, on the ASCII white space characters.\<close>

definition is_space :: "char \<Rightarrow> bool" where
  "is_space c = (c \<in> set [CHR 0x20, CHR 0x09, CHR 0x0A, CHR 0x0B, CHR 0x0C, CHR 0x0D])"

definition trim :: "string \<Rightarrow> string" where
  "trim s = rev (dropWhile is_space (rev (dropWhile is_space s)))"

text \<open>Lines 152 to 170: the state when the request is about to be sent.\<close>

definition begin_submit :: "chat_state \<Rightarrow> chat_state" where
  "begin_submit st =
    (let userMessage = \<lparr>role = User, content = query st, events = [], agentsUsed = []\<rparr>;
         agentMessage = \<lparr>role = Assistant, content = '''', events = [],
                         agentsUsed = [JStr ''RootAgent'']\<rparr>
     in st\<lparr>messages := (messages st @ [userMessage]) @ [agentMessage],
            query := '''',
            loading := True,
            activeAgent := JStr ''RootAgent'',
            agentHistory := [JStr ''RootAgent'']\<rparr>)"

text \<open>Lines 182 to 229: the \<^verbatim>\<open>while\<close> loop over the chunks the reader delivers.\<close>

definition stream_loop :: "(string \<Rightarrow> parsed) \<Rightarrow> string list \<Rightarrow> chat_state \<Rightarrow> chat_state" where
  "stream_loop parse chunks st = fold (process_chunk parse) chunks st"

text \<open>Lines 231 to 240: what follows the loop, on either ending.\<close>

definition finish :: "stream_end \<Rightarrow> chat_state \<Rightarrow> chat_state" where
  "finish ending st =
    (case ending of
       Done \<Rightarrow> st\<lparr>activeAgent := JNull, loading := False\<rparr>
     | Failed msg \<Rightarrow>
         st\<lparr>messages := update_last (\<lambda>m. m\<lparr>content := ''Error: '' @ msg\<rparr>) (messages st),
            loading := False\<rparr>)"

text \<open>Lines 148 to 241: one submission, given the chunks received and how the stream ended.\<close>

definition handleSubmit ::
  "(string \<Rightarrow> parsed) \<Rightarrow> string list \<Rightarrow> stream_end \<Rightarrow> chat_state \<Rightarrow> chat_state" where
  "handleSubmit parse chunks ending st =
    (if trim (query st) = [] \<or> loading st then st
     else finish ending (stream_loop parse chunks (begin_submit st)))"

section \<open>The upload page\<close>

record selected_file =
  name :: string
  size_bytes :: nat

record upload_result =
  status :: string
  message_text :: string
  files_processed :: "string list option"

record upload_state =
  files :: "selected_file list"
  uploading :: bool
  result :: "upload_result option"

text \<open>The outcome of \<^verbatim>\<open>axios.post\<close>: a response body, or an error with its message.\<close>

datatype post_outcome = Responded upload_result | Rejected string

text \<open>
  Lines 16 to 38. The second component lists the requests sent, each with the files of
  its form data.
\<close>

definition handleUpload :: "post_outcome \<Rightarrow> upload_state \<Rightarrow> upload_state \<times> selected_file list list" where
  "handleUpload outcome st =
    (if length (files st) = 0 then (st, [])
     else
       (let st1 = st\<lparr>uploading := True, result := None\<rparr>;
            formData = files st;
            st2 = (case outcome of
                     Responded d \<Rightarrow> st1\<lparr>result := Some d, files := []\<rparr>
                   | Rejected m \<Rightarrow>
                       st1\<lparr>result := Some \<lparr>status = ''error'', message_text = m,
                                            files_processed = None\<rparr>\<rparr>)
        in (st2\<lparr>uploading := False\<rparr>, [formData])))"

text \<open>Line 75: the button's \<^verbatim>\<open>disabled\<close> attribute.\<close>

definition upload_disabled :: "upload_state \<Rightarrow> bool" where
  "upload_disabled st = (uploading st \<or> length (files st) = 0)"

text \<open>A click reaches the handler only when the button is enabled.\<close>

definition click_upload :: "post_outcome \<Rightarrow> upload_state \<Rightarrow> upload_state \<times> selected_file list list" where
  "click_upload outcome st = (if upload_disabled st then (st, []) else handleUpload outcome st)"

section \<open>Notions used to state the properties\<close>

text \<open>An event that switches the active agent (the test of line 194).\<close>

definition switches :: "event \<Rightarrow> bool" where
  "switches d = (ev_type d = JStr ''agent_start'' \<or> ev_type d = JStr ''agent_active'')"

text \<open>An event whose agent reaches \<^verbatim>\<open>agentsUsed\<close>: by line 209 or by the guard of line 218.\<close>

definition counted :: "event \<Rightarrow> bool" where
  "counted d = (ev_type d = JStr ''agent_text'' \<or> truthy (ev_agent d))"

text \<open>
  The events the loop obtains from a line, a chunk and a list of chunks: the payloads
  of the \<^verbatim>\<open>data: \<close> lines on which the parser returns a readable value, in order.
\<close>

definition line_events :: "(string \<Rightarrow> parsed) \<Rightarrow> string \<Rightarrow> event list" where
  "line_events parse line =
    (if take 6 line = ''data: ''
     then (case parse (drop 6 line) of Data d \<Rightarrow> [d] | NullValue \<Rightarrow> [] | Threw \<Rightarrow> [])
     else [])"

definition chunk_events :: "(string \<Rightarrow> parsed) \<Rightarrow> string \<Rightarrow> event list" where
  "chunk_events parse chunk = concat (map (line_events parse) (split_nl chunk))"

definition stream_events :: "(string \<Rightarrow> parsed) \<Rightarrow> string list \<Rightarrow> event list" where
  "stream_events parse chunks = concat (map (chunk_events parse) chunks)"

text \<open>The text fragments of the \<^verbatim>\<open>agent_text\<close> events of a list, concatenated in order.\<close>

definition text_of :: "event list \<Rightarrow> string" where
  "text_of evs =
    concat (map (\<lambda>d. to_string (ev_content d)) (filter (\<lambda>d. ev_type d = JStr ''agent_text'') evs))"

text \<open>
  First-seen order: every element once, at the place of its first occurrence.
\<close>

fun first_seen :: "'a list \<Rightarrow> 'a list" where
  "first_seen [] = []"
| "first_seen (x # xs) = x # filter (\<lambda>y. y \<noteq> x) (first_seen xs)"

text \<open>The message being streamed into: the last one of the conversation.\<close>

definition pending :: "chat_state \<Rightarrow> message" where
  "pending st = last (messages st)"

section \<open>Sample inputs\<close>

text \<open>
  Payloads of the event stream and the values \<^verbatim>\<open>JSON.parse\<close> returns on them. The sample
  parser is applied only to these texts, to \<^verbatim>\<open>null\<close> and to texts that are not JSON
  (on which \<^verbatim>\<open>JSON.parse\<close> throws).
\<close>

definition start_root :: event where
  "start_root = \<lparr>ev_type = JStr ''agent_start'', ev_agent = JStr ''RootAgent'',
                 ev_content = JUndefined, ev_rest = ''''\<rparr>"

definition active_rag :: event where
  "active_rag = \<lparr>ev_type = JStr ''agent_active'', ev_agent = JStr ''RAGAgent'',
                 ev_content = JUndefined, ev_rest = ''''\<rparr>"

definition text_yes :: event where
  "text_yes = \<lparr>ev_type = JStr ''agent_text'', ev_agent = JStr ''RAGAgent'',
               ev_content = JStr ''Yes'', ev_rest = ''''\<rparr>"

definition text_complies :: event where
  "text_complies = \<lparr>ev_type = JStr ''agent_text'', ev_agent = JStr ''RAGAgent'',
                    ev_content = JStr '', it complies.'', ev_rest = ''''\<rparr>"

definition text_anonymous :: event where
  "text_anonymous = \<lparr>ev_type = JStr ''agent_text'', ev_agent = JUndefined,
                     ev_content = JStr ''Hi'', ev_rest = ''''\<rparr>"

definition tool_anonymous :: event where
  "tool_anonymous = \<lparr>ev_type = JStr ''tool_call'', ev_agent = JUndefined,
                     ev_content = JUndefined, ev_rest = ''search''\<rparr>"

definition sample_parse :: "string \<Rightarrow> parsed" where
  \<open>sample_parse s =
    (if s = ''{"type":"agent_start","agent":"RootAgent"}'' then Data start_root
     else if s = ''{"type":"agent_active","agent":"RAGAgent"}'' then Data active_rag
     else if s = ''{"type":"agent_text","agent":"RAGAgent","content":"Yes"}'' then Data text_yes
     else if s = ''{"type":"agent_text","agent":"RAGAgent","content":", it complies."}''
       then Data text_complies
     else if s = ''{"type":"agent_text","content":"Hi"}'' then Data text_anonymous
     else if s = ''{"type":"tool_call","tool":"search"}'' then Data tool_anonymous
     else if s = ''null'' then NullValue
     else Threw)\<close>

definition line_start_root :: string where
  \<open>line_start_root = ''data: {"type":"agent_start","agent":"RootAgent"}''\<close>

definition line_active_rag :: string where
  \<open>line_active_rag = ''data: {"type":"agent_active","agent":"RAGAgent"}''\<close>

definition line_yes :: string where
  \<open>line_yes = ''data: {"type":"agent_text","agent":"RAGAgent","content":"Yes"}''\<close>

definition line_complies :: string where
  \<open>line_complies = ''data: {"type":"agent_text","agent":"RAGAgent","content":", it complies."}''\<close>

text \<open>The line \<open>line_yes\<close> cut in two where a chunk boundary falls inside it.\<close>

definition line_yes_head :: string where
  \<open>line_yes_head = ''data: {"type":"agent_text","agent":"RAG''\<close>

definition line_yes_tail :: string where
  \<open>line_yes_tail = ''Agent","content":"Yes"}''\<close>

definition line_broken :: string where
  \<open>line_broken = ''data: {"type":"agent_text","agent":''\<close>

text \<open>The chat page with a query typed in and nothing submitted yet.\<close>

definition asking :: chat_state where
  "asking = \<lparr>query = ''Does it comply?'', messages = [], loading = False,
             activeAgent = JNull, agentHistory = []\<rparr>"

text \<open>The upload page as first rendered, and with one file selected.\<close>

definition no_files :: upload_state where
  "no_files = \<lparr>files = [], uploading = False, result = None\<rparr>"

definition one_file :: upload_state where
  "one_file = \<lparr>files = [\<lparr>name = ''policy.pdf'', size_bytes = 2048\<rparr>], uploading = False,
               result = None\<rparr>"

section \<open>Basic facts about the model\<close>

lemma split_nl_not_Nil: "split_nl s \<noteq> []"
  by (induction s) (auto split: list.splits)

lemma split_nl_append: "split_nl (xs @ CHR 0x0A # ys) = split_nl xs @ split_nl ys"
  by (induction xs) (auto split: list.splits simp: split_nl_not_Nil)

lemma split_nl_no_newline: "CHR 0x0A \<notin> set s \<Longrightarrow> split_nl s = [s]"
  by (induction s) (auto split: list.splits)

lemma update_last_nonempty: "ms \<noteq> [] \<Longrightarrow> update_last f ms \<noteq> []"
  by (simp add: update_last_def)

lemma last_update_last: "ms \<noteq> [] \<Longrightarrow> last (update_last f ms) = f (last ms)"
  by (simp add: update_last_def)

lemma butlast_update_last: "butlast (update_last f ms) = butlast ms"
  by (simp add: update_last_def)

lemma length_update_last: "length (update_last f ms) = length ms"
  by (cases "ms = []") (simp_all add: update_last_def)

lemma apply_event_messages_nonempty: "messages st \<noteq> [] \<Longrightarrow> messages (apply_event d st) \<noteq> []"
  by (simp add: apply_event_def Let_def update_last_nonempty)

lemma apply_event_butlast: "butlast (messages (apply_event d st)) = butlast (messages st)"
  by (simp add: apply_event_def Let_def butlast_update_last)

lemma apply_event_content:
  "messages st \<noteq> [] \<Longrightarrow>
   content (last (messages (apply_event d st))) =
     content (last (messages st)) @
       (if ev_type d = JStr ''agent_text'' then to_string (ev_content d) else [])"
  by (simp add: apply_event_def Let_def last_update_last update_last_nonempty)

lemma apply_event_events:
  "messages st \<noteq> [] \<Longrightarrow>
   events (last (messages (apply_event d st))) = events (last (messages st)) @ [d]"
  by (simp add: apply_event_def Let_def last_update_last update_last_nonempty)

lemma set_add_idem: "set_add x (set_add x s) = set_add x s"
  by (simp add: set_add_def)

lemma apply_event_agentsUsed:
  "messages st \<noteq> [] \<Longrightarrow>
   agentsUsed (last (messages (apply_event d st))) =
     (if counted d then set_add (ev_agent d) (agentsUsed (last (messages st)))
      else agentsUsed (last (messages st)))"
  by (simp add: apply_event_def Let_def last_update_last update_last_nonempty set_add_idem counted_def)

lemma apply_event_role:
  "messages st \<noteq> [] \<Longrightarrow> role (last (messages (apply_event d st))) = role (last (messages st))"
  by (simp add: apply_event_def Let_def last_update_last update_last_nonempty)

lemma apply_event_agentHistory:
  "agentHistory (apply_event d st) =
     (if switches d then set_add (ev_agent d) (agentHistory st) else agentHistory st)"
  by (simp add: apply_event_def Let_def set_add_def switches_def)

lemma apply_event_activeAgent:
  "activeAgent (apply_event d st) = (if switches d then ev_agent d else activeAgent st)"
  by (simp add: apply_event_def Let_def switches_def)

lemma apply_event_query: "query (apply_event d st) = query st"
  by (simp add: apply_event_def Let_def)

lemma apply_event_loading: "loading (apply_event d st) = loading st"
  by (simp add: apply_event_def Let_def)


lemma process_line_events: "process_line parse line st = fold apply_event (line_events parse line) st"
  by (simp add: process_line_def line_events_def split: parsed.splits)

lemma fold_process_line_events:
  "fold (process_line parse) ls st = fold apply_event (concat (map (line_events parse) ls)) st"
  by (induction ls arbitrary: st) (simp_all add: process_line_events)

lemma process_chunk_events: "process_chunk parse chunk st = fold apply_event (chunk_events parse chunk) st"
  by (simp add: process_chunk_def chunk_events_def fold_process_line_events)

lemma stream_loop_events: "stream_loop parse chunks st = fold apply_event (stream_events parse chunks) st"
  unfolding stream_loop_def stream_events_def
  by (induction chunks arbitrary: st) (simp_all add: process_chunk_events)

lemma fold_messages_nonempty: "messages st \<noteq> [] \<Longrightarrow> messages (fold apply_event evs st) \<noteq> []"
  by (induction evs arbitrary: st) (simp_all add: apply_event_messages_nonempty)

lemma begin_submit_messages_nonempty: "messages (begin_submit st) \<noteq> []"
  by (simp add: begin_submit_def Let_def)

lemma stream_messages_nonempty: "messages (stream_loop parse chunks (begin_submit st)) \<noteq> []"
  by (simp add: stream_loop_events fold_messages_nonempty begin_submit_messages_nonempty)

lemma fold_content:
  "messages st \<noteq> [] \<Longrightarrow>
   content (last (messages (fold apply_event evs st))) = content (last (messages st)) @ text_of evs"
  by (induction evs arbitrary: st)
     (simp_all add: text_of_def apply_event_content apply_event_messages_nonempty)

lemma fold_events:
  "messages st \<noteq> [] \<Longrightarrow>
   events (last (messages (fold apply_event evs st))) = events (last (messages st)) @ evs"
  by (induction evs arbitrary: st)
     (simp_all add: apply_event_events apply_event_messages_nonempty)

lemma fold_butlast: "butlast (messages (fold apply_event evs st)) = butlast (messages st)"
  by (induction evs arbitrary: st) (simp_all add: apply_event_butlast)

lemma fold_set_add: "fold set_add xs acc = acc @ filter (\<lambda>y. y \<notin> set acc) (first_seen xs)"
proof (induction xs arbitrary: acc)
  case Nil
  show ?case by simp
next
  case (Cons x xs)
  show ?case
  proof (cases "x \<in> set acc")
    case True
    then have "filter (\<lambda>y. y \<notin> set acc) (filter (\<lambda>y. y \<noteq> x) (first_seen xs))
             = filter (\<lambda>y. y \<notin> set acc) (first_seen xs)"
      by (auto intro: filter_cong)
    with True Cons show ?thesis by (simp add: set_add_def)
  next
    case False
    have "filter (\<lambda>y. y \<notin> set (acc @ [x])) (first_seen xs)
        = filter (\<lambda>y. y \<notin> set acc) (filter (\<lambda>y. y \<noteq> x) (first_seen xs))"
      by (auto intro: filter_cong)
    with False Cons show ?thesis by (simp add: set_add_def)
  qed
qed

lemma set_first_seen: "set (first_seen xs) = set xs"
  by (induction xs) auto

lemma distinct_first_seen: "distinct (first_seen xs)"
  by (induction xs) (auto simp: set_first_seen)

lemma fold_set_add_seed: "fold set_add xs [a] = first_seen (a # xs)"
  by (simp add: fold_set_add)

lemma fold_agentHistory:
  "agentHistory (fold apply_event evs st) =
     fold set_add (map ev_agent (filter switches evs)) (agentHistory st)"
  by (induction evs arbitrary: st) (simp_all add: apply_event_agentHistory)

lemma fold_agentsUsed:
  "messages st \<noteq> [] \<Longrightarrow>
   agentsUsed (last (messages (fold apply_event evs st))) =
     fold set_add (map ev_agent (filter counted evs)) (agentsUsed (last (messages st)))"
  by (induction evs arbitrary: st)
     (simp_all add: apply_event_agentsUsed apply_event_messages_nonempty)

lemma fold_activeAgent:
  "activeAgent (fold apply_event evs st) =
     (case rev (filter switches evs) of [] \<Rightarrow> activeAgent st | d # _ \<Rightarrow> ev_agent d)"
  by (induction evs arbitrary: st) (auto simp: apply_event_activeAgent split: list.splits)

section \<open>The text streamed into the pending message\<close>

lemma stream_text:
  "content (pending (stream_loop parse chunks (begin_submit st))) = text_of (stream_events parse chunks)"
  by (simp add: pending_def stream_loop_events fold_content begin_submit_messages_nonempty)
     (simp add: begin_submit_def Let_def)

section \<open>Lines that are not events\<close>

text \<open>
  C9. A line that does not start with the prefix \<^verbatim>\<open>data: \<close> (a blank line, or a line
  with any other prefix) is ignored: processing it leaves the whole chat state, and so
  every message, its events and agentsUsed, activeAgent and agentHistory, as it was.
\<close>

theorem non_data_line_ignored:
  "take 6 line \<noteq> ''data: '' \<Longrightarrow> process_line parse line st = st"
  by (simp add: process_line_def)

theorem non_data_line_ignored_witness:
  "take 6 '''' \<noteq> ''data: '' \<and> take 6 ''event: ping'' \<noteq> ''data: ''
   \<and> process_line sample_parse '''' (begin_submit asking) = begin_submit asking
   \<and> process_line sample_parse ''event: ping'' (begin_submit asking) = begin_submit asking"
  using non_data_line_ignored [of "''''" sample_parse "begin_submit asking"]
        non_data_line_ignored [of "''event: ping''" sample_parse "begin_submit asking"]
  by simp

text \<open>
  C4. A \<^verbatim>\<open>data: \<close> line whose payload is not valid JSON (the parser throws on it)
  changes no state, and the loop goes on: the lines after it in the chunk, and the
  chunks after that, are processed exactly as if the malformed line had been absent.
\<close>

theorem malformed_line_skipped:
  assumes "take 6 bad = ''data: ''" and "parse (drop 6 bad) = Threw"
  shows "process_line parse bad st = st
    \<and> fold (process_line parse) (pre @ bad # post) st = fold (process_line parse) (pre @ post) st
    \<and> (split_nl chunk = pre @ bad # post \<and> split_nl chunk' = pre @ post \<longrightarrow>
         stream_loop parse (cs1 @ chunk # cs2) st = stream_loop parse (cs1 @ chunk' # cs2) st)"
proof -
  have skip: "process_line parse bad s = s" for s
    using assms by (simp add: process_line_def)
  have lines: "fold (process_line parse) (pre @ bad # post) s = fold (process_line parse) (pre @ post) s" for s
    by (simp add: skip)
  have "stream_loop parse (cs1 @ chunk # cs2) st = stream_loop parse (cs1 @ chunk' # cs2) st"
    if "split_nl chunk = pre @ bad # post" and "split_nl chunk' = pre @ post"
    using that lines by (simp add: stream_loop_def process_chunk_def)
  with skip lines show ?thesis by blast
qed

theorem malformed_line_skipped_witness:
  "take 6 line_broken = ''data: '' \<and> sample_parse (drop 6 line_broken) = Threw
   \<and> split_nl (line_broken @ CHR 0x0A # line_yes) = [] @ line_broken # [line_yes]
   \<and> split_nl line_yes = [] @ [line_yes]
   \<and> process_line sample_parse line_broken (begin_submit asking) = begin_submit asking
   \<and> stream_loop sample_parse ([] @ (line_broken @ CHR 0x0A # line_yes) # [line_complies]) (begin_submit asking)
     = stream_loop sample_parse ([] @ line_yes # [line_complies]) (begin_submit asking)
   \<and> content (pending (stream_loop sample_parse [line_broken @ CHR 0x0A # line_yes, line_complies] (begin_submit asking)))
     = ''Yes, it complies.''"
proof -
  have a: "take 6 line_broken = ''data: ''" by (simp add: line_broken_def)
  have b: "sample_parse (drop 6 line_broken) = Threw" by (simp add: line_broken_def sample_parse_def)
  have c: "split_nl (line_broken @ CHR 0x0A # line_yes) = [] @ line_broken # [line_yes]"
    by (simp add: line_broken_def line_yes_def)
  have d: "split_nl line_yes = [] @ [line_yes]" by (simp add: line_yes_def)
  have e: "content (pending (stream_loop sample_parse [line_yes, line_complies] (begin_submit asking)))
     = ''Yes, it complies.''"
    by (simp add: stream_text stream_events_def chunk_events_def line_events_def text_of_def
          line_yes_def line_complies_def sample_parse_def text_yes_def text_complies_def)
  from malformed_line_skipped [where bad = line_broken and parse = sample_parse
        and st = "begin_submit asking" and pre = "[]" and post = "[line_yes]"
        and chunk = "line_broken @ CHR 0x0A # line_yes" and chunk' = line_yes
        and ?cs1.0 = "[]" and ?cs2.0 = "[line_complies]", OF a b] a b c d e
  show ?thesis by simp
qed

section \<open>One submission\<close>

lemma submit_runs:
  "\<not> (trim (query st) = [] \<or> loading st) \<Longrightarrow>
   handleSubmit parse chunks ending st = finish ending (stream_loop parse chunks (begin_submit st))"
  by (simp add: handleSubmit_def)

lemma asking_submits: "\<not> (trim (query asking) = [] \<or> loading asking)"
  by (simp add: asking_def trim_def is_space_def)

lemma finish_Done_messages: "messages (finish Done s) = messages s"
  by (simp add: finish_def)

lemma finish_agentHistory: "agentHistory (finish ending s) = agentHistory s"
  by (simp add: finish_def split: stream_end.splits)

lemma finish_agentsUsed:
  "messages s \<noteq> [] \<Longrightarrow> agentsUsed (pending (finish ending s)) = agentsUsed (pending s)"
  by (simp add: finish_def pending_def last_update_last split: stream_end.splits)

lemma begin_submit_pending:
  "pending (begin_submit st) =
     \<lparr>role = Assistant, content = '''', events = [], agentsUsed = [JStr ''RootAgent'']\<rparr>"
  by (simp add: begin_submit_def pending_def Let_def)

lemma stream_agentsUsed:
  "agentsUsed (pending (stream_loop parse chunks (begin_submit st))) =
     first_seen (JStr ''RootAgent'' # map ev_agent (filter counted (stream_events parse chunks)))"
  using begin_submit_pending [of st]
  by (simp add: pending_def stream_loop_events fold_agentsUsed begin_submit_messages_nonempty
        fold_set_add_seed del: first_seen.simps)

lemma stream_agentHistory:
  "agentHistory (stream_loop parse chunks (begin_submit st)) =
     first_seen (JStr ''RootAgent'' # map ev_agent (filter switches (stream_events parse chunks)))"
proof -
  have "agentHistory (begin_submit st) = [JStr ''RootAgent'']"
    by (simp add: begin_submit_def Let_def)
  then show ?thesis
    by (simp add: stream_loop_events fold_agentHistory fold_set_add_seed del: first_seen.simps)
qed

lemma stream_events_pending:
  "events (pending (stream_loop parse chunks (begin_submit st))) = stream_events parse chunks"
  using begin_submit_pending [of st]
  by (simp add: pending_def stream_loop_events fold_events begin_submit_messages_nonempty)

lemma stream_butlast:
  "butlast (messages (stream_loop parse chunks (begin_submit st))) =
     messages st @ [\<lparr>role = User, content = query st, events = [], agentsUsed = []\<rparr>]"
  by (simp add: stream_loop_events fold_butlast) (simp add: begin_submit_def Let_def butlast_append)

text \<open>The events of the sample streams.\<close>

lemma sample_events_yes: "stream_events sample_parse [line_yes] = [text_yes]"
  by (simp add: stream_events_def chunk_events_def line_events_def line_yes_def sample_parse_def)

lemma sample_events_split: "stream_events sample_parse [line_yes_head, line_yes_tail] = []"
  by (simp add: stream_events_def chunk_events_def line_events_def line_yes_head_def
        line_yes_tail_def sample_parse_def)

lemma sample_events_active: "stream_events sample_parse [line_active_rag] = [active_rag]"
  by (simp add: stream_events_def chunk_events_def line_events_def line_active_rag_def sample_parse_def)

lemma newline_boundary_harmless:
  "stream_events parse (cs1 @ (a @ CHR 0x0A # b) # cs2) = stream_events parse (cs1 @ a # b # cs2)"
  by (simp add: stream_events_def chunk_events_def split_nl_append)

text \<open>
  C1. The claim: however the byte stream of valid \<^verbatim>\<open>data: \<close> lines is cut into chunks,
  the final text of the pending message is the concatenation of the \<^verbatim>\<open>agent_text\<close>
  fragments. The loop splits every chunk on its own and carries nothing over, so it
  does not hold: one line delivered whole yields the text \<^verbatim>\<open>Yes\<close>; the same bytes
  delivered in two chunks, cut inside the line, yield the empty text.
\<close>

theorem split_line_loses_text:
  "line_yes_head @ line_yes_tail = line_yes
   \<and> content (pending (handleSubmit sample_parse [line_yes] Done asking)) = ''Yes''
   \<and> content (pending (handleSubmit sample_parse [line_yes_head, line_yes_tail] Done asking)) = ''''"
proof -
  have a: "line_yes_head @ line_yes_tail = line_yes"
    by (simp add: line_yes_head_def line_yes_tail_def line_yes_def)
  have b: "content (pending (handleSubmit sample_parse [line_yes] Done asking)) = ''Yes''"
    by (simp add: submit_runs [OF asking_submits] pending_def finish_Done_messages)
       (simp add: stream_text [unfolded pending_def] sample_events_yes text_of_def text_yes_def)
  have c: "content (pending (handleSubmit sample_parse [line_yes_head, line_yes_tail] Done asking)) = ''''"
    by (simp add: submit_runs [OF asking_submits] pending_def finish_Done_messages)
       (simp add: stream_text [unfolded pending_def] sample_events_split text_of_def)
  from a b c show ?thesis by simp
qed

section \<open>Agents used and agent history\<close>

text \<open>
  C2, as amended. After a submission, whichever way the stream ended, agentsUsed of the
  assistant message has no duplicates and consists of the identifier \<^verbatim>\<open>RootAgent\<close>, with
  which line 167 creates the set, and of the agent fields of the parsed events that are
  \<^verbatim>\<open>agent_text\<close> events or whose agent field is truthy; the members stand in the order
  in which they were first added.
\<close>

theorem agents_used_seeded_union:
  assumes "\<not> (trim (query st) = [] \<or> loading st)"
  shows "distinct (agentsUsed (pending (handleSubmit parse chunks ending st)))
    \<and> set (agentsUsed (pending (handleSubmit parse chunks ending st))) =
        insert (JStr ''RootAgent'') (ev_agent ` {d \<in> set (stream_events parse chunks). counted d})
    \<and> agentsUsed (pending (handleSubmit parse chunks ending st)) =
        first_seen (JStr ''RootAgent'' # map ev_agent (filter counted (stream_events parse chunks)))"
proof -
  have eq: "agentsUsed (pending (handleSubmit parse chunks ending st)) =
        first_seen (JStr ''RootAgent'' # map ev_agent (filter counted (stream_events parse chunks)))"
    using assms
    by (simp add: submit_runs finish_agentsUsed stream_messages_nonempty stream_agentsUsed
          del: first_seen.simps)
  have "set (first_seen (JStr ''RootAgent'' # map ev_agent (filter counted (stream_events parse chunks))))
      = insert (JStr ''RootAgent'') (ev_agent ` {d \<in> set (stream_events parse chunks). counted d})"
    by (simp only: set_first_seen) auto
  with eq distinct_first_seen [of "JStr ''RootAgent'' # map ev_agent (filter counted (stream_events parse chunks))"]
  show ?thesis by simp
qed

theorem agents_used_seeded_union_witness:
  "\<not> (trim (query asking) = [] \<or> loading asking)
   \<and> agentsUsed (pending (handleSubmit sample_parse [line_yes, line_complies] Done asking))
       = [JStr ''RootAgent'', JStr ''RAGAgent'']
   \<and> set (agentsUsed (pending (handleSubmit sample_parse [line_yes, line_complies] Done asking)))
       = insert (JStr ''RootAgent'')
           (ev_agent ` {d \<in> set (stream_events sample_parse [line_yes, line_complies]). counted d})"
proof -
  have ev: "stream_events sample_parse [line_yes, line_complies] = [text_yes, text_complies]"
    by (simp add: stream_events_def chunk_events_def line_events_def line_yes_def
          line_complies_def sample_parse_def)
  have fs: "first_seen (JStr ''RootAgent'' # map ev_agent (filter counted [text_yes, text_complies]))
        = [JStr ''RootAgent'', JStr ''RAGAgent'']"
    by (simp add: counted_def text_yes_def text_complies_def)
  note run = agents_used_seeded_union [OF asking_submits, of sample_parse
      "[line_yes, line_complies]" Done]
  from run have members:
    "set (agentsUsed (pending (handleSubmit sample_parse [line_yes, line_complies] Done asking)))
       = insert (JStr ''RootAgent'')
           (ev_agent ` {d \<in> set (stream_events sample_parse [line_yes, line_complies]). counted d})"
    by blast
  from run have "agentsUsed (pending (handleSubmit sample_parse [line_yes, line_complies] Done asking))
       = first_seen (JStr ''RootAgent'' #
           map ev_agent (filter counted (stream_events sample_parse [line_yes, line_complies])))"
    by blast
  then have ordered:
    "agentsUsed (pending (handleSubmit sample_parse [line_yes, line_complies] Done asking))
       = [JStr ''RootAgent'', JStr ''RAGAgent'']"
    by (simp only: ev fs)
  from asking_submits ordered members show ?thesis by blast
qed

text \<open>
  C2 as stated fails: the set is not the set of the agents the events carry. A stream
  with a single event of \<^verbatim>\<open>RAGAgent\<close> leaves \<^verbatim>\<open>RootAgent\<close> in agentsUsed as well.
\<close>

theorem agents_used_not_event_agents_counterexample:
  "set (agentsUsed (pending (handleSubmit sample_parse [line_yes] Done asking)))
     \<noteq> set (map ev_agent (stream_events sample_parse [line_yes]))"
proof -
  have "agentsUsed (pending (handleSubmit sample_parse [line_yes] Done asking))
        = [JStr ''RootAgent'', JStr ''RAGAgent'']"
    by (simp add: submit_runs [OF asking_submits] finish_agentsUsed stream_messages_nonempty
          stream_agentsUsed sample_events_yes counted_def text_yes_def)
  then show ?thesis
    by (simp add: sample_events_yes text_yes_def)
qed

text \<open>
  C3. At every point of the stream loop (after any number of lines processed since the
  submission began, and after the loop) agentHistory has no duplicates and lists the
  agents in the order of their first appearance, the submission itself making
  \<^verbatim>\<open>RootAgent\<close> the first. An \<^verbatim>\<open>agent_start\<close> or \<^verbatim>\<open>agent_active\<close> event sets activeAgent to
  its agent and appends the agent to agentHistory only if it is not there yet; any
  other event leaves both as they were.
\<close>

theorem agent_history_first_seen:
  "distinct (agentHistory (fold (process_line parse) ls (begin_submit st)))
   \<and> agentHistory (fold (process_line parse) ls (begin_submit st)) =
       first_seen (JStr ''RootAgent'' #
                   map ev_agent (filter switches (concat (map (line_events parse) ls))))
   \<and> (switches d \<longrightarrow>
        activeAgent (apply_event d s) = ev_agent d
        \<and> agentHistory (apply_event d s) =
            (if ev_agent d \<in> set (agentHistory s) then agentHistory s
             else agentHistory s @ [ev_agent d]))
   \<and> (\<not> switches d \<longrightarrow>
        activeAgent (apply_event d s) = activeAgent s
        \<and> agentHistory (apply_event d s) = agentHistory s)
   \<and> agentHistory (finish ending s) = agentHistory s"
proof -
  have seed: "agentHistory (begin_submit st) = [JStr ''RootAgent'']"
    by (simp add: begin_submit_def Let_def)
  have eq: "agentHistory (fold (process_line parse) ls (begin_submit st)) =
       first_seen (JStr ''RootAgent'' #
                   map ev_agent (filter switches (concat (map (line_events parse) ls))))"
    by (simp add: fold_process_line_events fold_agentHistory seed fold_set_add_seed
          del: first_seen.simps)
  have dist: "distinct (agentHistory (fold (process_line parse) ls (begin_submit st)))"
    by (simp only: eq distinct_first_seen)
  have step: "switches d \<longrightarrow>
        activeAgent (apply_event d s) = ev_agent d
        \<and> agentHistory (apply_event d s) =
            (if ev_agent d \<in> set (agentHistory s) then agentHistory s
             else agentHistory s @ [ev_agent d])"
    by (simp add: apply_event_activeAgent apply_event_agentHistory set_add_def)
  have other: "\<not> switches d \<longrightarrow>
        activeAgent (apply_event d s) = activeAgent s
        \<and> agentHistory (apply_event d s) = agentHistory s"
    by (simp add: apply_event_activeAgent apply_event_agentHistory)
  from dist eq step other finish_agentHistory [of ending s] show ?thesis by blast
qed

theorem agent_history_first_seen_witness:
  "agentHistory (fold (process_line sample_parse)
       [line_active_rag, line_yes, line_start_root, '''', line_active_rag] (begin_submit asking))
     = [JStr ''RootAgent'', JStr ''RAGAgent'']
   \<and> switches active_rag
   \<and> activeAgent (apply_event active_rag (begin_submit asking)) = JStr ''RAGAgent''
   \<and> agentHistory (apply_event active_rag (begin_submit asking)) = [JStr ''RootAgent'', JStr ''RAGAgent'']
   \<and> \<not> switches text_yes
   \<and> activeAgent (apply_event text_yes (begin_submit asking)) = JStr ''RootAgent''
   \<and> agentHistory (apply_event text_yes (begin_submit asking)) = [JStr ''RootAgent'']"
proof -
  have ev: "concat (map (line_events sample_parse)
              [line_active_rag, line_yes, line_start_root, '''', line_active_rag])
            = [active_rag, text_yes, start_root, active_rag]"
    by (simp add: line_events_def line_yes_def line_active_rag_def line_start_root_def sample_parse_def)
  have sw: "switches active_rag" "\<not> switches text_yes" "switches start_root"
    by (simp_all add: switches_def active_rag_def text_yes_def start_root_def)
  have ag: "ev_agent active_rag = JStr ''RAGAgent''" "ev_agent start_root = JStr ''RootAgent''"
    by (simp_all add: active_rag_def start_root_def)
  have seed: "agentHistory (begin_submit asking) = [JStr ''RootAgent'']"
       "activeAgent (begin_submit asking) = JStr ''RootAgent''"
    by (simp_all add: begin_submit_def Let_def)
  have fs: "first_seen (JStr ''RootAgent'' #
              map ev_agent (filter switches [active_rag, text_yes, start_root, active_rag]))
            = [JStr ''RootAgent'', JStr ''RAGAgent'']"
    by (simp add: sw ag)
  note run = agent_history_first_seen [of sample_parse
         "[line_active_rag, line_yes, line_start_root, '''', line_active_rag]" asking
         active_rag "begin_submit asking" Done, unfolded ev fs]
  note still = agent_history_first_seen [of sample_parse "[]" asking text_yes
         "begin_submit asking" Done]
  from run still sw seed ag show ?thesis by simp
qed

section \<open>How a submission ends\<close>

text \<open>
  C5. When the transport fails, the text of the pending assistant message becomes
  the error description \<^verbatim>\<open>Error: \<close> followed by the error's message; the events appended
  to it so far (all the events parsed from the chunks received), its agentsUsed and its
  role stay, and so do all the messages before it: the earlier conversation and the
  user's message of this submission.
\<close>

theorem transport_error_keeps_events:
  assumes "\<not> (trim (query st) = [] \<or> loading st)"
  shows "content (pending (handleSubmit parse chunks (Failed msg) st)) = ''Error: '' @ msg
    \<and> events (pending (handleSubmit parse chunks (Failed msg) st)) =
        events (pending (stream_loop parse chunks (begin_submit st)))
    \<and> events (pending (handleSubmit parse chunks (Failed msg) st)) = stream_events parse chunks
    \<and> agentsUsed (pending (handleSubmit parse chunks (Failed msg) st)) =
        agentsUsed (pending (stream_loop parse chunks (begin_submit st)))
    \<and> role (pending (handleSubmit parse chunks (Failed msg) st)) = Assistant
    \<and> butlast (messages (handleSubmit parse chunks (Failed msg) st)) =
        butlast (messages (stream_loop parse chunks (begin_submit st)))
    \<and> butlast (messages (handleSubmit parse chunks (Failed msg) st)) =
        messages st @ [\<lparr>role = User, content = query st, events = [], agentsUsed = []\<rparr>]
    \<and> length (messages (handleSubmit parse chunks (Failed msg) st)) =
        length (messages (stream_loop parse chunks (begin_submit st)))"
proof -
  let ?s = "stream_loop parse chunks (begin_submit st)"
  have run: "handleSubmit parse chunks (Failed msg) st = finish (Failed msg) ?s"
    using assms by (rule submit_runs)
  have ne: "messages ?s \<noteq> []" by (rule stream_messages_nonempty)
  have msgs: "messages (finish (Failed msg) ?s) =
      update_last (\<lambda>m. m\<lparr>content := ''Error: '' @ msg\<rparr>) (messages ?s)"
    by (simp add: finish_def)
  have r: "role (last (messages ?s)) = Assistant"
  proof -
    have "role (last (messages (fold apply_event evs s))) = role (last (messages s))"
      if "messages s \<noteq> []" for evs s
      using that
      by (induction evs arbitrary: s) (simp_all add: apply_event_role apply_event_messages_nonempty)
    from this [OF begin_submit_messages_nonempty] begin_submit_pending [of st]
    show ?thesis by (simp add: stream_loop_events pending_def)
  qed
  from ne r stream_events_pending [of parse chunks st] show ?thesis
    by (simp add: run msgs pending_def last_update_last butlast_update_last length_update_last
          stream_butlast)
qed

theorem transport_error_keeps_events_witness:
  "\<not> (trim (query asking) = [] \<or> loading asking)
   \<and> content (pending (handleSubmit sample_parse [line_yes] (Failed ''Failed to fetch'') asking))
       = ''Error: Failed to fetch''
   \<and> events (pending (handleSubmit sample_parse [line_yes] (Failed ''Failed to fetch'') asking))
       = [text_yes]"
proof -
  note run = transport_error_keeps_events [OF asking_submits, of sample_parse "[line_yes]"
      "''Failed to fetch''", unfolded sample_events_yes]
  have "''Error: '' @ ''Failed to fetch'' = ''Error: Failed to fetch''" by simp
  with run asking_submits show ?thesis by metis
qed

text \<open>
  C7. When the reader reports \<^verbatim>\<open>done\<close>, activeAgent is cleared to \<^verbatim>\<open>null\<close>; agentHistory
  and the whole conversation, hence the events and the text of the pending message, are
  exactly what the loop accumulated.
\<close>

theorem natural_end_clears_active_agent:
  assumes "\<not> (trim (query st) = [] \<or> loading st)"
  shows "activeAgent (handleSubmit parse chunks Done st) = JNull
    \<and> agentHistory (handleSubmit parse chunks Done st) =
        agentHistory (stream_loop parse chunks (begin_submit st))
    \<and> messages (handleSubmit parse chunks Done st) =
        messages (stream_loop parse chunks (begin_submit st))
    \<and> events (pending (handleSubmit parse chunks Done st)) = stream_events parse chunks
    \<and> content (pending (handleSubmit parse chunks Done st)) = text_of (stream_events parse chunks)"
proof -
  have run: "handleSubmit parse chunks Done st = finish Done (stream_loop parse chunks (begin_submit st))"
    using assms by (rule submit_runs)
  have "pending (finish Done s) = pending s" for s
    by (simp add: pending_def finish_def)
  then show ?thesis
    by (simp add: run finish_agentHistory finish_Done_messages stream_events_pending stream_text)
       (simp add: finish_def)
qed

theorem natural_end_clears_active_agent_witness:
  "\<not> (trim (query asking) = [] \<or> loading asking)
   \<and> activeAgent (stream_loop sample_parse [line_active_rag] (begin_submit asking)) = JStr ''RAGAgent''
   \<and> activeAgent (handleSubmit sample_parse [line_active_rag] Done asking) = JNull
   \<and> agentHistory (handleSubmit sample_parse [line_active_rag] Done asking)
       = [JStr ''RootAgent'', JStr ''RAGAgent'']
   \<and> events (pending (handleSubmit sample_parse [line_active_rag] Done asking)) = [active_rag]"
proof -
  have sw: "switches active_rag" by (simp add: switches_def active_rag_def)
  have ag: "ev_agent active_rag = JStr ''RAGAgent''" by (simp add: active_rag_def)
  have a: "activeAgent (stream_loop sample_parse [line_active_rag] (begin_submit asking)) = JStr ''RAGAgent''"
    by (simp add: stream_loop_events sample_events_active apply_event_activeAgent sw ag)
  have h: "agentHistory (stream_loop sample_parse [line_active_rag] (begin_submit asking))
       = [JStr ''RootAgent'', JStr ''RAGAgent'']"
    by (simp add: stream_agentHistory sample_events_active sw ag)
  from natural_end_clears_active_agent [OF asking_submits, of sample_parse "[line_active_rag]"]
    asking_submits a h sample_events_active
  show ?thesis by simp
qed

text \<open>
  C6, as amended. A new submission sets the session to activeAgent \<^verbatim>\<open>RootAgent\<close> and
  agentHistory \<^verbatim>\<open>[RootAgent]\<close>; when the stream ends naturally activeAgent is cleared
  to \<^verbatim>\<open>null\<close> and agentHistory keeps the agents seen, in first-seen order.
\<close>

theorem session_lifecycle:
  assumes "\<not> (trim (query st) = [] \<or> loading st)"
  shows "activeAgent (begin_submit st) = JStr ''RootAgent''
    \<and> agentHistory (begin_submit st) = [JStr ''RootAgent'']
    \<and> activeAgent (handleSubmit parse chunks Done st) = JNull
    \<and> agentHistory (handleSubmit parse chunks Done st) =
        first_seen (JStr ''RootAgent'' #
                    map ev_agent (filter switches (stream_events parse chunks)))"
proof -
  have run: "handleSubmit parse cs Done st = finish Done (stream_loop parse cs (begin_submit st))" for cs
    using assms by (rule submit_runs)
  show ?thesis
    by (simp add: run finish_agentHistory stream_agentHistory del: first_seen.simps)
       (simp add: finish_def begin_submit_def Let_def)
qed

theorem session_lifecycle_witness:
  "\<not> (trim (query asking) = [] \<or> loading asking)
   \<and> activeAgent (begin_submit asking) = JStr ''RootAgent''
   \<and> agentHistory (begin_submit asking) = [JStr ''RootAgent'']
   \<and> activeAgent (handleSubmit sample_parse [line_active_rag] Done asking) = JNull
   \<and> agentHistory (handleSubmit sample_parse [line_active_rag] Done asking)
       = [JStr ''RootAgent'', JStr ''RAGAgent'']"
proof -
  have fs: "first_seen (JStr ''RootAgent'' # map ev_agent (filter switches [active_rag]))
       = [JStr ''RootAgent'', JStr ''RAGAgent'']"
    by (simp add: switches_def active_rag_def)
  note run = session_lifecycle [OF asking_submits, of sample_parse "[line_active_rag]",
      unfolded sample_events_active fs]
  from run asking_submits show ?thesis by blast
qed

text \<open>
  C6 as stated fails: after a natural end of the stream the session is not empty,
  agentHistory still lists the agents of the submission.
\<close>

theorem session_not_emptied_counterexample:
  "\<not> (activeAgent (handleSubmit sample_parse [line_active_rag] Done asking) = JNull
      \<and> agentHistory (handleSubmit sample_parse [line_active_rag] Done asking) = [])"
proof -
  have "agentHistory (handleSubmit sample_parse [line_active_rag] Done asking)
       = [JStr ''RootAgent'', JStr ''RAGAgent'']"
    by (simp add: submit_runs [OF asking_submits] finish_agentHistory stream_agentHistory
          sample_events_active switches_def active_rag_def)
  then show ?thesis by simp
qed

text \<open>
  C10. An \<^verbatim>\<open>agent_text\<close> event always has its agent field added to agentsUsed of the
  pending message, also when the field is absent: then \<^verbatim>\<open>undefined\<close> becomes a member.
  The truthiness guard applies to the generic append only: an event of another type
  whose agent field is falsy leaves agentsUsed as it was.
\<close>

theorem agent_text_adds_agent_unguarded:
  assumes "messages st \<noteq> []"
  shows "(ev_type d = JStr ''agent_text'' \<longrightarrow>
           agentsUsed (pending (apply_event d st)) = set_add (ev_agent d) (agentsUsed (pending st))
           \<and> ev_agent d \<in> set (agentsUsed (pending (apply_event d st))))
    \<and> (ev_type d \<noteq> JStr ''agent_text'' \<and> \<not> truthy (ev_agent d) \<longrightarrow>
           agentsUsed (pending (apply_event d st)) = agentsUsed (pending st))"
  using assms
  by (simp add: pending_def apply_event_agentsUsed counted_def) (simp add: set_add_def)

theorem agent_text_adds_agent_unguarded_witness:
  "messages (begin_submit asking) \<noteq> []
   \<and> ev_type text_anonymous = JStr ''agent_text'' \<and> ev_agent text_anonymous = JUndefined
   \<and> agentsUsed (pending (apply_event text_anonymous (begin_submit asking)))
       = [JStr ''RootAgent'', JUndefined]
   \<and> JUndefined \<in> set (agentsUsed (pending (apply_event text_anonymous (begin_submit asking))))
   \<and> ev_type tool_anonymous \<noteq> JStr ''agent_text'' \<and> \<not> truthy (ev_agent tool_anonymous)
   \<and> agentsUsed (pending (apply_event tool_anonymous (begin_submit asking))) = [JStr ''RootAgent'']"
proof -
  have p: "agentsUsed (pending (begin_submit asking)) = [JStr ''RootAgent'']"
    by (simp add: begin_submit_pending)
  have t: "ev_type text_anonymous = JStr ''agent_text''" "ev_agent text_anonymous = JUndefined"
    by (simp_all add: text_anonymous_def)
  have u: "ev_type tool_anonymous \<noteq> JStr ''agent_text''" "\<not> truthy (ev_agent tool_anonymous)"
    by (simp_all add: tool_anonymous_def)
  have a: "set_add JUndefined [JStr ''RootAgent''] = [JStr ''RootAgent'', JUndefined]"
    by (simp add: set_add_def)
  from agent_text_adds_agent_unguarded [OF begin_submit_messages_nonempty, of text_anonymous asking]
       agent_text_adds_agent_unguarded [OF begin_submit_messages_nonempty, of tool_anonymous asking]
       begin_submit_messages_nonempty [of asking] p t u a
  show ?thesis by simp
qed

section \<open>Upload without files\<close>

text \<open>
  C8. With no file selected the upload handler returns at once: it sends no request and
  leaves the upload state (the pending flag, the result banner, the file list) as it
  was; the button is disabled then, and a click does nothing either. A request is sent
  only from a non-empty file list.
\<close>

theorem empty_upload_does_nothing:
  "(files st = [] \<longrightarrow>
      handleUpload outcome st = (st, []) \<and> upload_disabled st \<and> click_upload outcome st = (st, []))
   \<and> (snd (handleUpload outcome st) \<noteq> [] \<longrightarrow> files st \<noteq> [])
   \<and> (snd (click_upload outcome st) \<noteq> [] \<longrightarrow> files st \<noteq> [])"
  by (auto simp: handleUpload_def upload_disabled_def click_upload_def Let_def)

theorem empty_upload_does_nothing_witness:
  "files no_files = []
   \<and> handleUpload (Rejected ''Network Error'') no_files = (no_files, [])
   \<and> upload_disabled no_files
   \<and> click_upload (Rejected ''Network Error'') no_files = (no_files, [])
   \<and> snd (handleUpload (Rejected ''Network Error'') one_file) = [files one_file]
   \<and> snd (handleUpload (Rejected ''Network Error'') one_file) \<noteq> []
   \<and> files one_file \<noteq> []"
proof -
  have a: "files no_files = []" by (simp add: no_files_def)
  have b: "snd (handleUpload (Rejected ''Network Error'') one_file) = [files one_file]"
    by (simp add: handleUpload_def one_file_def Let_def)
  from empty_upload_does_nothing [of no_files "Rejected ''Network Error''"]
       empty_upload_does_nothing [of one_file "Rejected ''Network Error''"] a b
  show ?thesis by simp
qed

end
